theory Spec2Isabelle
  imports Main
begin

section \<open>JavaScript strings\<close>

text \<open>
  A JavaScript string is modelled as a \<^typ>\<open>string\<close>: the list of its code units,
  restricted to the code units below 256. The three characters that cannot be written
  inside a string literal get a name.
\<close>

abbreviation nl :: char where "nl \<equiv> CHR 0x0A"
abbreviation cr :: char where "cr \<equiv> CHR 0x0D"
abbreviation bsl :: char where "bsl \<equiv> CHR 0x5C"

text \<open>
  The characters of \<open>\s\<close> and of \<open>String.prototype.trim\<close> (WhiteSpace and
  LineTerminator) below 256: TAB, LF, VT, FF, CR, SPACE and NBSP.
\<close>

definition is_space :: "char \<Rightarrow> bool" where
  "is_space c = (c \<in> set [CHR 0x09, CHR 0x0A, CHR 0x0B, CHR 0x0C, CHR 0x0D, CHR 0x20, CHR 0xA0])"

definition is_digit :: "char \<Rightarrow> bool" where
  "is_digit c = (c \<in> set ''0123456789'')"

definition is_word :: "char \<Rightarrow> bool" where
  "is_word c = (c \<in> set ''ABCDEFGHIJKLMNOPQRSTUVWXYZabcdefghijklmnopqrstuvwxyz0123456789_'')"

definition is_line_terminator :: "char \<Rightarrow> bool" where
  "is_line_terminator c = (c = nl \<or> c = cr)"

definition trim :: "string \<Rightarrow> string" where
  "trim s = rev (dropWhile is_space (rev (dropWhile is_space s)))"

definition startsWith :: "string \<Rightarrow> string \<Rightarrow> bool" where
  "startsWith s p = (take (length p) s = p)"

text \<open>\<open>s.split("\n\n")\<close>: the segments between the leftmost, non-overlapping blank lines.\<close>

fun split_acc :: "string \<Rightarrow> string \<Rightarrow> string list" where
  "split_acc cur (a # b # cs) =
     (if a = nl \<and> b = nl then rev cur # split_acc [] cs else split_acc (a # cur) (b # cs))"
| "split_acc cur [a] = [rev (a # cur)]"
| "split_acc cur [] = [rev cur]"

definition split_nlnl :: "string \<Rightarrow> string list" where
  "split_nlnl s = split_acc [] s"

text \<open>Decimal notation of an array length, as a template literal prints it.\<close>

fun string_of_nat :: "nat \<Rightarrow> string" where
  "string_of_nat n =
     (if n < 10 then [''0123456789'' ! n]
      else string_of_nat (n div 10) @ [''0123456789'' ! (n mod 10)])"

declare string_of_nat.simps [simp del]

definition digit_val :: "char \<Rightarrow> nat" where
  "digit_val c = length (takeWhile (\<lambda>d. d \<noteq> c) ''0123456789'')"

definition nat_of_dec :: "string \<Rightarrow> nat" where
  "nat_of_dec ds = foldl (\<lambda>a c. 10 * a + digit_val c) 0 ds"

section \<open>Regular expressions\<close>

text \<open>
  The fragment of the regular expressions of JavaScript that \<open>preprocessText\<close> uses,
  with the backtracking semantics: a matcher returns every way to match at a position,
  in the order the backtracking engine tries them, so that the head of the list is the
  match JavaScript finds.
\<close>

datatype cls = Ch char | WordC | SpaceC | NotSpaceC | DigitC

fun in_cls :: "cls \<Rightarrow> char \<Rightarrow> bool" where
  "in_cls (Ch d) c = (c = d)"
| "in_cls WordC c = is_word c"
| "in_cls SpaceC c = is_space c"
| "in_cls NotSpaceC c = (\<not> is_space c)"
| "in_cls DigitC c = is_digit c"

datatype regex =
    Lit string               \<comment> \<open>a sequence of literal characters\<close>
  | Sym "cls list"           \<comment> \<open>\<open>[...]\<close>, or one escape such as \<open>\w\<close>\<close>
  | NSym "cls list"          \<comment> \<open>\<open>[^...]\<close>\<close>
  | Dot                      \<comment> \<open>\<open>.\<close>: any character but a line terminator\<close>
  | Seq regex regex
  | Alt regex regex
  | Star bool regex          \<comment> \<open>\<open>r*\<close> when the flag is True (greedy), \<open>r*?\<close> otherwise\<close>
  | Grp nat regex            \<comment> \<open>capture group number n\<close>
  | NegLA regex              \<comment> \<open>\<open>(?!r)\<close>\<close>
  | WordB                    \<comment> \<open>\<open>\b\<close>\<close>
  | Bol                      \<comment> \<open>\<open>^\<close> under the flag m\<close>
  | Eol                      \<comment> \<open>\<open>$\<close> under the flag m\<close>
  | EndInput                 \<comment> \<open>\<open>$\<close> without the flag m\<close>

definition Plus :: "bool \<Rightarrow> regex \<Rightarrow> regex" where
  "Plus greedy r = Seq r (Star greedy r)"

definition Opt :: "regex \<Rightarrow> regex" where
  "Opt r = Alt r (Lit [])"

text \<open>
  A matcher state: the character before the position (None at the start of the input),
  the input from the position on, and the captures made so far (latest first).
  \<open>r+\<close> is \<open>r\<close> followed by \<open>r*\<close>, and \<open>r?\<close> tries \<open>r\<close> before the empty match. An
  iteration of \<open>r*\<close> that consumes nothing is rejected, as the language prescribes.
\<close>

type_synonym captures = "(nat \<times> string) list"
type_synonym mstate = "char option \<times> string \<times> captures"

definition last_char :: "char option \<Rightarrow> string \<Rightarrow> char option" where
  "last_char p w = (if w = [] then p else Some (last w))"

definition word_before :: "char option \<Rightarrow> bool" where
  "word_before p = (case p of None \<Rightarrow> False | Some c \<Rightarrow> is_word c)"

definition word_after :: "string \<Rightarrow> bool" where
  "word_after r = (case r of [] \<Rightarrow> False | c # _ \<Rightarrow> is_word c)"

function rmatch :: "regex \<Rightarrow> mstate \<Rightarrow> mstate list" where
  "rmatch (Lit w) (p, r, g) =
     (if take (length w) r = w then [(last_char p w, drop (length w) r, g)] else [])"
| "rmatch (Sym cs) (p, r, g) =
     (case r of [] \<Rightarrow> [] | c # r' \<Rightarrow> if list_ex (\<lambda>k. in_cls k c) cs then [(Some c, r', g)] else [])"
| "rmatch (NSym cs) (p, r, g) =
     (case r of [] \<Rightarrow> [] | c # r' \<Rightarrow> if list_ex (\<lambda>k. in_cls k c) cs then [] else [(Some c, r', g)])"
| "rmatch Dot (p, r, g) =
     (case r of [] \<Rightarrow> [] | c # r' \<Rightarrow> if is_line_terminator c then [] else [(Some c, r', g)])"
| "rmatch (Seq a b) s = concat (map (rmatch b) (rmatch a s))"
| "rmatch (Alt a b) s = rmatch a s @ rmatch b s"
| "rmatch (Star greedy a) (p, r, g) =
     (let more = concat (map (rmatch (Star greedy a))
                   (filter (\<lambda>s'. length (fst (snd s')) < length r) (rmatch a (p, r, g))))
      in if greedy then more @ [(p, r, g)] else (p, r, g) # more)"
| "rmatch (Grp n a) (p, r, g) =
     map (\<lambda>(p', r', g'). (p', r', (n, take (length r - length r') r) # g')) (rmatch a (p, r, g))"
| "rmatch (NegLA a) s = (if rmatch a s = [] then [s] else [])"
| "rmatch WordB (p, r, g) = (if word_before p \<noteq> word_after r then [(p, r, g)] else [])"
| "rmatch Bol (p, r, g) =
     (case p of None \<Rightarrow> [(p, r, g)] | Some c \<Rightarrow> if is_line_terminator c then [(p, r, g)] else [])"
| "rmatch Eol (p, r, g) =
     (case r of [] \<Rightarrow> [(p, r, g)] | c # _ \<Rightarrow> if is_line_terminator c then [(p, r, g)] else [])"
| "rmatch EndInput (p, r, g) = (if r = [] then [(p, r, g)] else [])"
  by pat_completeness auto
termination
  by (relation "measures [\<lambda>(a, s). size a, \<lambda>(a, s). length (fst (snd s))]") auto

text \<open>
  The equation of \<open>Star\<close> unfolds into itself, so it is applied by hand; the other
  equations stay simplification rules.
\<close>

declare rmatch.simps [simp del]

lemmas rmatch_basic [simp] = rmatch.simps(1-6) rmatch.simps(8-13)


fun seqs :: "regex list \<Rightarrow> regex" where
  "seqs [] = Lit []"
| "seqs [r] = r"
| "seqs (r # rs) = Seq r (seqs rs)"

fun alts :: "regex list \<Rightarrow> regex" where
  "alts [] = NegLA (Lit [])"
| "alts [r] = r"
| "alts (r # rs) = Alt r (alts rs)"

section \<open>\<open>String.prototype.replace\<close> with a global pattern\<close>

text \<open>
  The pattern is tried at each position from the left. At a match the callback's result
  is appended and the search goes on after the match; an empty match moves on by one
  character. The callback gets the matched text and the captures, and threads the state
  it closes over (the placeholder table).
\<close>

function replace_from ::
  "regex \<Rightarrow> (string \<Rightarrow> captures \<Rightarrow> 'st \<Rightarrow> string \<times> 'st) \<Rightarrow> char option \<Rightarrow> string \<Rightarrow> 'st
     \<Rightarrow> string \<times> 'st" where
  "replace_from re f p s st =
     (case rmatch re (p, s, []) of
        [] \<Rightarrow>
          (case s of
             [] \<Rightarrow> ([], st)
           | c # cs \<Rightarrow> (case replace_from re f (Some c) cs st of (out, st') \<Rightarrow> (c # out, st')))
      | (p', s', g) # _ \<Rightarrow>
          (case f (take (length s - length s') s) g st of
             (rep, st1) \<Rightarrow>
               if length s' < length s
               then (case replace_from re f p' s' st1 of (out, st2) \<Rightarrow> (rep @ out, st2))
               else (case s of
                       [] \<Rightarrow> (rep, st1)
                     | c # cs \<Rightarrow>
                         (case replace_from re f (Some c) cs st1 of
                            (out, st2) \<Rightarrow> (rep @ c # out, st2)))))"
  by pat_completeness auto
termination
  by (relation "measure (\<lambda>(re, f, p, s, st). length s)") auto

declare replace_from.simps [simp del]

definition replace_cb ::
  "regex \<Rightarrow> (string \<Rightarrow> captures \<Rightarrow> 'st \<Rightarrow> string \<times> 'st) \<Rightarrow> string \<Rightarrow> 'st \<Rightarrow> string \<times> 'st" where
  "replace_cb re f s st = replace_from re f None s st"

text \<open>
  A replacement string: literal text and group references \<open>$n\<close>. A group that did not
  take part in the match expands to the empty string.
\<close>

datatype tpart = T string | G nat

definition group :: "captures \<Rightarrow> nat \<Rightarrow> string" where
  "group g n = (case map_of g n of None \<Rightarrow> [] | Some w \<Rightarrow> w)"

definition expand :: "tpart list \<Rightarrow> captures \<Rightarrow> string" where
  "expand t g = concat (map (\<lambda>x. case x of T w \<Rightarrow> w | G n \<Rightarrow> group g n) t)"

definition replace :: "regex \<Rightarrow> tpart list \<Rightarrow> string \<Rightarrow> string" where
  "replace re t s = fst (replace_cb re (\<lambda>m g u. (expand t g, u)) s ())"


section \<open>The text normalizer \<open>preprocessText\<close>\<close>

abbreviation sp :: regex where "sp \<equiv> Sym [SpaceC]"
abbreviation wd :: regex where "wd \<equiv> Sym [WordC]"
abbreviation dg :: regex where "dg \<equiv> Sym [DigitC]"

text \<open>\<open>/\b(\w)\s+(\w)\s+(\w)\b/g\<close> replaced by \<open>"$1$2$3"\<close>\<close>

definition re_spaced :: regex where
  "re_spaced = seqs [WordB, Grp 1 wd, Plus True sp, Grp 2 wd, Plus True sp, Grp 3 wd, WordB]"

definition fix_spaced :: "string \<Rightarrow> string" where
  "fix_spaced = replace re_spaced [G 1, G 2, G 3]"

text \<open>\<open>/,\s*(then|so)\b/g\<close> replaced by \<open>"$1"\<close>\<close>

definition re_comma :: regex where
  "re_comma = seqs [Lit '','', Star True sp, Grp 1 (alts [Lit ''then'', Lit ''so'']), WordB]"

definition fix_comma :: "string \<Rightarrow> string" where
  "fix_comma = replace re_comma [G 1]"

text \<open>\<open>/\r\n|\r/g\<close> replaced by \<open>"\n"\<close>\<close>

definition re_eol :: regex where
  "re_eol = alts [Lit [cr, nl], Lit [cr]]"

definition normalize_eol :: "string \<Rightarrow> string" where
  "normalize_eol = replace re_eol [T [nl]]"

text \<open>
  The placeholder table \<open>latexPlaceholders\<close> is the state of the four protecting
  callbacks: \<open>protect pre x\<close> is \<open>latexPlaceholders.push(x)\<close> followed by
  \<open>return pre + `__LATEX_${latexPlaceholders.length - 1}__`\<close>.
\<close>

definition token :: "nat \<Rightarrow> string" where
  "token i = ''__LATEX_'' @ string_of_nat i @ ''__''"

definition protect :: "string \<Rightarrow> string \<Rightarrow> string list \<Rightarrow> string \<times> string list" where
  "protect pre x latexPlaceholders =
     (let latexPlaceholders = latexPlaceholders @ [x]
      in (pre @ token (length latexPlaceholders - 1), latexPlaceholders))"

text \<open>\<open>$$[\s\S]*?$$|$[^$]*?$\<close>, the body of the math patterns\<close>

definition re_math_body :: regex where
  "re_math_body =
     alts [seqs [Lit ''$$'', Star False (Sym [SpaceC, NotSpaceC]), Lit ''$$''],
           seqs [Lit ''$'', Star False (NSym [Ch (CHR ''$'')]), Lit ''$'']]"

text \<open>\<open>/(\$\$[\s\S]*?\$\$|\$[^\$]*?\$)/g\<close>\<close>

definition re_math :: regex where
  "re_math = Grp 1 re_math_body"

definition protect_math :: "string \<Rightarrow> string list \<Rightarrow> string \<times> string list" where
  "protect_math = replace_cb re_math (\<lambda>m g. protect [] m)"

text \<open>\<open>/=\s*([^\$]*?)\$\$/g\<close>\<close>

definition re_malformed :: regex where
  "re_malformed =
     seqs [Lit ''='', Star True sp, Grp 1 (Star False (NSym [Ch (CHR ''$'')])), Lit ''$$'']"

definition protect_malformed :: "string \<Rightarrow> string list \<Rightarrow> string \<times> string list" where
  "protect_malformed =
     replace_cb re_malformed (\<lambda>m g. protect ''= '' (''$'' @ group g 1 @ ''$''))"

text \<open>\<open>/\\(frac|int|pi|psi|le|ge)\b(?:{[^{}]*})?(?:{[^{}]*})?/g\<close>\<close>

definition re_braces :: regex where
  "re_braces = seqs [Lit ''{'', Star True (NSym [Ch (CHR ''{''), Ch (CHR ''}'')]), Lit ''}'']"

definition re_command :: regex where
  "re_command =
     seqs [Lit [bsl],
           Grp 1 (alts [Lit ''frac'', Lit ''int'', Lit ''pi'', Lit ''psi'', Lit ''le'', Lit ''ge'']),
           WordB, Opt re_braces, Opt re_braces]"

definition protect_commands :: "string \<Rightarrow> string list \<Rightarrow> string \<times> string list" where
  "protect_commands = replace_cb re_command (\<lambda>m g. protect [] (''$'' @ m @ ''$''))"

text \<open>\<open>/\b(u|du|dx)\s*\\frac\{([^}]*)\}\{([^}]*)\}/g\<close>\<close>

definition re_quantum :: regex where
  "re_quantum =
     seqs [WordB, Grp 1 (alts [Lit ''u'', Lit ''du'', Lit ''dx'']), Star True sp,
           Lit (bsl # ''frac{''), Grp 2 (Star True (NSym [Ch (CHR ''}'')])),
           Lit ''}{'', Grp 3 (Star True (NSym [Ch (CHR ''}'')])), Lit ''}'']"

definition protect_quantum :: "string \<Rightarrow> string list \<Rightarrow> string \<times> string list" where
  "protect_quantum =
     replace_cb re_quantum
       (\<lambda>m g. protect []
          (''$'' @ group g 1 @ '' '' @ bsl # ''frac{'' @ group g 2 @ ''}{'' @ group g 3 @ ''}$''))"

text \<open>\<open>/(\*\*[^\*]+?)(:|\?)\s*(\*\*)/g\<close> replaced by \<open>"$1$2$3"\<close>\<close>

definition re_bold :: regex where
  "re_bold =
     seqs [Grp 1 (seqs [Lit ''**'', Plus False (NSym [Ch (CHR ''*'')])]),
           Grp 2 (alts [Lit '':'', Lit ''?'']), Star True sp, Grp 3 (Lit ''**'')]"

definition fix_bold :: "string \<Rightarrow> string" where
  "fix_bold = replace re_bold [G 1, G 2, G 3]"

text \<open>\<open>/([^\n])\n(?!\n|[*+]\s|\d+\.\s|#)/g\<close> replaced by \<open>"$1 "\<close>\<close>

definition re_join :: regex where
  "re_join =
     seqs [Grp 1 (NSym [Ch nl]), Lit [nl],
           NegLA (alts [Lit [nl], seqs [Sym [Ch (CHR ''*''), Ch (CHR ''+'')], sp],
                        seqs [Plus True dg, Lit ''.'', sp], Lit ''#''])]"

definition join_lines :: "string \<Rightarrow> string" where
  "join_lines = replace re_join [G 1, T '' '']"

text \<open>\<open>/(:)\s*(\$\$[\s\S]*?\$\$|\$[^\$]*?\$)/g\<close> replaced by \<open>"$1\n$2"\<close>\<close>

definition re_colon_math :: regex where
  "re_colon_math = seqs [Grp 1 (Lit '':''), Star True sp, Grp 2 re_math_body]"

definition math_after_colon :: "string \<Rightarrow> string" where
  "math_after_colon = replace re_colon_math [G 1, T [nl], G 2]"

text \<open>\<open>/(https?:\/\/[^\s<]*?)\s*([.:])\s*/g\<close> replaced by the callback's \<open>`${url}${punct}`\<close>\<close>

definition re_url :: regex where
  "re_url =
     seqs [Grp 1 (seqs [Lit ''http'', Opt (Lit ''s''), Lit ''://'',
                        Star False (NSym [SpaceC, Ch (CHR ''<'')])]),
           Star True sp, Grp 2 (Sym [Ch (CHR ''.''), Ch (CHR '':'')]), Star True sp]"

definition fix_urls :: "string \<Rightarrow> string" where
  "fix_urls = replace re_url [G 1, G 2]"

text \<open>\<open>/\n{3,}/g\<close> replaced by \<open>"\n\n"\<close>\<close>

definition re_newlines :: regex where
  "re_newlines = seqs [Lit [nl, nl, nl], Star True (Lit [nl])]"

definition limit_newlines :: "string \<Rightarrow> string" where
  "limit_newlines = replace re_newlines [T [nl, nl]]"

text \<open>
  \<open>/([^\n])\n(?!\n|[-*+]\s*(__LATEX_\d+__)?|\d+\.\s|#|\s*__LATEX_\d+__|\b(Let|When|Therefore|If|Then)\b|[.,:;]$)/g\<close>
  replaced by \<open>"$1 "\<close>
\<close>

definition re_token :: regex where
  "re_token = seqs [Lit ''__LATEX_'', Plus True dg, Lit ''__'']"

definition re_merge :: regex where
  "re_merge =
     seqs [Grp 1 (NSym [Ch nl]), Lit [nl],
           NegLA (alts [Lit [nl],
                        seqs [Sym [Ch (CHR ''-''), Ch (CHR ''*''), Ch (CHR ''+'')], Star True sp,
                              Opt (Grp 2 re_token)],
                        seqs [Plus True dg, Lit ''.'', sp],
                        Lit ''#'',
                        seqs [Star True sp, re_token],
                        seqs [WordB,
                              Grp 3 (alts [Lit ''Let'', Lit ''When'', Lit ''Therefore'', Lit ''If'',
                                           Lit ''Then'']),
                              WordB],
                        seqs [Sym [Ch (CHR ''.''), Ch (CHR '',''), Ch (CHR '':''), Ch (CHR '';'')],
                              EndInput]])]"

definition merge_newlines :: "string \<Rightarrow> string" where
  "merge_newlines = replace re_merge [G 1, T '' '']"

text \<open>\<open>/^(#+.*)$/gm\<close> replaced by \<open>"\n\n$1\n\n"\<close>\<close>

definition re_heading :: regex where
  "re_heading = seqs [Bol, Grp 1 (seqs [Plus True (Lit ''#''), Star True Dot]), Eol]"

definition format_headings :: "string \<Rightarrow> string" where
  "format_headings = replace re_heading [T [nl, nl], G 1, T [nl, nl]]"

text \<open>\<open>/([-*+]\s.*)\n\n(?![-*+\d])/g\<close> replaced by \<open>"$1\n\n\n"\<close>\<close>

definition re_list :: regex where
  "re_list =
     seqs [Grp 1 (seqs [Sym [Ch (CHR ''-''), Ch (CHR ''*''), Ch (CHR ''+'')], sp, Star True Dot]),
           Lit [nl, nl],
           NegLA (Sym [Ch (CHR ''-''), Ch (CHR ''*''), Ch (CHR ''+''), DigitC])]"

definition format_lists :: "string \<Rightarrow> string" where
  "format_lists = replace re_list [G 1, T [nl, nl, nl]]"

text \<open>
  \<open>/Dividing by \$A e\^\{i\(kx \\omega t\)\}\$:/g\<close> and
  \<open>/Dividing by \$A e\^\{i\(kx - \\omega t\)\}\$:/g\<close>, both replaced by
  \<open>"**Dividing by $A e^{i(kx - \\omega t)}$:**"\<close>, where no \<open>$\<close> starts a group reference
\<close>

definition re_dividing1 :: regex where
  "re_dividing1 = Lit (''Dividing by $A e^{i(kx '' @ bsl # ''omega t)}$:'')"

definition re_dividing2 :: regex where
  "re_dividing2 = Lit (''Dividing by $A e^{i(kx - '' @ bsl # ''omega t)}$:'')"

definition dividing_bold :: string where
  "dividing_bold = ''**Dividing by $A e^{i(kx - '' @ bsl # ''omega t)}$:**''"

definition fix_dividing :: "string \<Rightarrow> string" where
  "fix_dividing text = replace re_dividing2 [T dividing_bold] (replace re_dividing1 [T dividing_bold] text)"

text \<open>
  \<open>/__LATEX_(\d+)__/g\<close> replaced by the callback's \<open>latexPlaceholders[index]\<close>. The
  index is the captured string: it names an element only when it is the decimal notation
  of a number below the length; otherwise the lookup gives \<open>undefined\<close>, which
  \<open>replace\<close> turns into the text \<open>undefined\<close>.
\<close>

definition re_restore :: regex where
  "re_restore = seqs [Lit ''__LATEX_'', Grp 1 (Plus True dg), Lit ''__'']"

definition array_get :: "string list \<Rightarrow> string \<Rightarrow> string" where
  "array_get a key =
     (let i = nat_of_dec key
      in if string_of_nat i = key \<and> i < length a then a ! i else ''undefined'')"

definition restore_latex :: "string list \<Rightarrow> string \<Rightarrow> string" where
  "restore_latex latexPlaceholders text =
     fst (replace_cb re_restore (\<lambda>m g u. (array_get latexPlaceholders (group g 1), u)) text ())"

text \<open>\<open>/(\$[^\$]+\$)\s*([^\s\$])/g\<close> and \<open>/([^\s\$])\s*(\$[^\$]+\$)/g\<close>, replaced by \<open>"$1 $2"\<close>\<close>

definition re_inline :: regex where
  "re_inline = seqs [Lit ''$'', Plus True (NSym [Ch (CHR ''$'')]), Lit ''$'']"

definition re_space_after :: regex where
  "re_space_after = seqs [Grp 1 re_inline, Star True sp, Grp 2 (NSym [SpaceC, Ch (CHR ''$'')])]"

definition re_space_before :: regex where
  "re_space_before = seqs [Grp 1 (NSym [SpaceC, Ch (CHR ''$'')]), Star True sp, Grp 2 re_inline]"

definition space_inline :: "string \<Rightarrow> string" where
  "space_inline text =
     replace re_space_before [G 1, T '' '', G 2] (replace re_space_after [G 1, T '' '', G 2] text)"

text \<open>\<open>/^(\$\$.*\$\$)$/gm\<close> replaced by \<open>"\n$1\n"\<close>\<close>

definition re_display :: regex where
  "re_display = seqs [Bol, Grp 1 (seqs [Lit ''$$'', Star True Dot, Lit ''$$'']), Eol]"

definition isolate_display :: "string \<Rightarrow> string" where
  "isolate_display = replace re_display [T [nl], G 1, T [nl]]"

text \<open>The pipeline, in the order of the source.\<close>

definition preprocessText :: "string \<Rightarrow> string" where
  "preprocessText text =
     (if text = [] then []
      else
        let text = fix_spaced text;
            text = fix_comma text;
            text = normalize_eol text;
            (text, latexPlaceholders) = protect_math text [];
            (text, latexPlaceholders) = protect_malformed text latexPlaceholders;
            (text, latexPlaceholders) = protect_commands text latexPlaceholders;
            (text, latexPlaceholders) = protect_quantum text latexPlaceholders;
            text = fix_bold text;
            text = join_lines text;
            text = math_after_colon text;
            text = fix_urls text;
            text = limit_newlines text;
            text = merge_newlines text;
            text = trim text;
            text = format_headings text;
            text = format_lists text;
            text = fix_dividing text;
            text = restore_latex latexPlaceholders text;
            text = space_inline text;
            text = isolate_display text;
            text = limit_newlines text
        in text)"

section \<open>The conversation and the streaming loop of \<open>handleSendMessage\<close>\<close>

record message =
  role :: string
  content :: string
  is_web_search :: nat
  timestamp :: string

datatype error = TypeError

text \<open>
  The updater that the loop passes to \<open>setMessages\<close>. On an empty conversation
  \<open>last\<close> is \<open>undefined\<close> and reading \<open>last.role\<close> raises a TypeError.
\<close>

definition show_content :: "string \<Rightarrow> message list \<Rightarrow> error + message list" where
  "show_content accumulatedContent prev =
     (if prev = [] then Inl TypeError
      else if role (last prev) = ''assistant''
      then Inr (butlast prev @ [(last prev)\<lparr>content := preprocessText accumulatedContent\<rparr>])
      else Inr prev)"

record stream =
  buffer :: string
  accumulatedContent :: string
  messages :: "message list"

text \<open>The body of \<open>for (const part of parts)\<close>; each \<open>continue\<close> leaves the state as it is.\<close>

definition process_part :: "stream \<Rightarrow> string \<Rightarrow> error + stream" where
  "process_part st part =
     (let trimmed = trim part in
      if \<not> startsWith trimmed ''data:'' then Inr st
      else
        let data = trim (drop 5 trimmed) in
        if data = ''[DONE]'' then Inr st
        else
          let acc = accumulatedContent st @ data @ [nl] in
          case show_content acc (messages st) of
            Inl e \<Rightarrow> Inl e
          | Inr ms \<Rightarrow> Inr (st\<lparr>accumulatedContent := acc, messages := ms\<rparr>))"

fun process_parts :: "stream \<Rightarrow> string list \<Rightarrow> error + stream" where
  "process_parts st [] = Inr st"
| "process_parts st (part # parts) =
     (case process_part st part of Inl e \<Rightarrow> Inl e | Inr st' \<Rightarrow> process_parts st' parts)"

text \<open>
  One turn of the reading loop on a decoded chunk: \<open>buffer += chunk\<close>,
  \<open>parts = buffer.split("\n\n")\<close>, \<open>buffer = parts.pop() || ""\<close>, then the loop over
  the parts that are left.
\<close>

definition feed :: "stream \<Rightarrow> string \<Rightarrow> error + stream" where
  "feed st chunk =
     (let parts = split_nlnl (buffer st @ chunk)
      in process_parts (st\<lparr>buffer := (if parts = [] then [] else last parts)\<rparr>) (butlast parts))"

fun feed_all :: "stream \<Rightarrow> string list \<Rightarrow> error + stream" where
  "feed_all st [] = Inr st"
| "feed_all st (chunk # chunks) =
     (case feed st chunk of Inl e \<Rightarrow> Inl e | Inr st' \<Rightarrow> feed_all st' chunks)"

text \<open>The state at \<open>let buffer = ""; let accumulatedContent = "";\<close>\<close>

definition start :: "message list \<Rightarrow> stream" where
  "start ms = \<lparr>buffer = [], accumulatedContent = [], messages = ms\<rparr>"

section \<open>\<open>handleCancel\<close>\<close>

text \<open>The updater that \<open>handleCancel\<close> passes to \<open>setMessages\<close>.\<close>

definition handleCancel :: "message list \<Rightarrow> message list" where
  "handleCancel prev =
     (let newMessages = prev in
      if newMessages \<noteq> [] \<and> role (last newMessages) = ''assistant''
      then if trim (content (last newMessages)) = []
           then butlast newMessages
           else butlast newMessages @
                  [(last newMessages)\<lparr>content :=
                     content (last newMessages) @ [nl, nl] @ ''[Generation cancelled]''\<rparr>]
      else newMessages)"


section \<open>\<open>preprocessText\<close> called on any value\<close>

text \<open>
  The parameter \<open>text\<close> is untyped. The guard \<open>if (!text) return ""\<close> takes every falsy
  value; after it each statement calls a method of strings on the current value of
  \<open>text\<close>, which raises a TypeError when that value is not a string.
\<close>

datatype js_value = JUndefined | JNull | JBoolean bool | JNumber int | JString string

definition truthy :: "js_value \<Rightarrow> bool" where
  "truthy v =
     (case v of JUndefined \<Rightarrow> False | JNull \<Rightarrow> False | JBoolean b \<Rightarrow> b | JNumber n \<Rightarrow> n \<noteq> 0
      | JString s \<Rightarrow> s \<noteq> [])"

text \<open>\<open>v.replace(...)\<close> or \<open>v.trim()\<close>, where \<open>m\<close> is what the method does on a string.\<close>

definition call_method :: "(string \<Rightarrow> string) \<Rightarrow> js_value \<Rightarrow> error + js_value" where
  "call_method m v = (case v of JString s \<Rightarrow> Inr (JString (m s)) | _ \<Rightarrow> Inl TypeError)"

definition call_method_cb ::
  "(string \<Rightarrow> string list \<Rightarrow> string \<times> string list) \<Rightarrow> js_value \<Rightarrow> string list
     \<Rightarrow> error + js_value \<times> string list" where
  "call_method_cb m v latexPlaceholders =
     (case v of
        JString s \<Rightarrow> (case m s latexPlaceholders of (s', t) \<Rightarrow> Inr (JString s', t))
      | _ \<Rightarrow> Inl TypeError)"

definition and_then :: "error + 'a \<Rightarrow> ('a \<Rightarrow> error + 'b) \<Rightarrow> error + 'b" where
  "and_then r f = (case r of Inl e \<Rightarrow> Inl e | Inr x \<Rightarrow> f x)"

definition preprocessText_js :: "js_value \<Rightarrow> error + js_value" where
  "preprocessText_js text =
     (if \<not> truthy text then Inr (JString [])
      else
        and_then (call_method fix_spaced text) (\<lambda>text.
        and_then (call_method fix_comma text) (\<lambda>text.
        and_then (call_method normalize_eol text) (\<lambda>text.
        and_then (call_method_cb protect_math text []) (\<lambda>(text, latexPlaceholders).
        and_then (call_method_cb protect_malformed text latexPlaceholders) (\<lambda>(text, latexPlaceholders).
        and_then (call_method_cb protect_commands text latexPlaceholders) (\<lambda>(text, latexPlaceholders).
        and_then (call_method_cb protect_quantum text latexPlaceholders) (\<lambda>(text, latexPlaceholders).
        and_then (call_method fix_bold text) (\<lambda>text.
        and_then (call_method join_lines text) (\<lambda>text.
        and_then (call_method math_after_colon text) (\<lambda>text.
        and_then (call_method fix_urls text) (\<lambda>text.
        and_then (call_method limit_newlines text) (\<lambda>text.
        and_then (call_method merge_newlines text) (\<lambda>text.
        and_then (call_method trim text) (\<lambda>text.
        and_then (call_method format_headings text) (\<lambda>text.
        and_then (call_method format_lists text) (\<lambda>text.
        and_then (call_method fix_dividing text) (\<lambda>text.
        and_then (call_method (restore_latex latexPlaceholders) text) (\<lambda>text.
        and_then (call_method space_inline text) (\<lambda>text.
        and_then (call_method isolate_display text) (\<lambda>text.
        and_then (call_method limit_newlines text) (\<lambda>text.
        Inr text))))))))))))))))))))))"

section \<open>Notions used to state the properties\<close>

text \<open>The pattern matches at no position of the text, from the position after \<open>p\<close> on.\<close>

fun no_match_from :: "regex \<Rightarrow> char option \<Rightarrow> string \<Rightarrow> bool" where
  "no_match_from re p [] = (rmatch re (p, [], []) = [])"
| "no_match_from re p (c # cs) = (rmatch re (p, c # cs, []) = [] \<and> no_match_from re (Some c) cs)"

definition no_match :: "regex \<Rightarrow> string \<Rightarrow> bool" where
  "no_match re s = no_match_from re None s"


















text \<open>
  A lower bound on the number of characters satisfying \<open>P\<close> that a match of the
  pattern consumes.
\<close>

fun min_count :: "(char \<Rightarrow> bool) \<Rightarrow> regex \<Rightarrow> nat" where
  "min_count P (Lit w) = length (filter P w)"
| "min_count P (Sym cs) = (if \<forall>c. list_ex (\<lambda>k. in_cls k c) cs \<longrightarrow> P c then 1 else 0)"
| "min_count P (NSym cs) = (if \<forall>c. \<not> list_ex (\<lambda>k. in_cls k c) cs \<longrightarrow> P c then 1 else 0)"
| "min_count P (Seq a b) = min_count P a + min_count P b"
| "min_count P (Alt a b) = min (min_count P a) (min_count P b)"
| "min_count P (Grp n a) = min_count P a"
| "min_count P _ = 0"

text \<open>The number of \<open>$\<close> in a text.\<close>

definition dollars :: "string \<Rightarrow> nat" where
  "dollars s = length (filter (\<lambda>c. c = CHR ''$'') s)"

text \<open>
  The payloads that the loop takes from a list of frames: of each frame that starts with
  the marker once trimmed, what follows the marker, trimmed, unless it is the sentinel.
\<close>

definition payloads :: "string list \<Rightarrow> string list" where
  "payloads parts =
     [trim (drop 5 (trim part)). part \<leftarrow> parts,
        startsWith (trim part) ''data:'', trim (drop 5 (trim part)) \<noteq> ''[DONE]'']"

text \<open>A message to build example conversations from.\<close>

definition msg :: "string \<Rightarrow> string \<Rightarrow> message" where
  "msg r c = \<lparr>role = r, content = c, is_web_search = 0, timestamp = ''2024-01-01T00:00:00.000Z''\<rparr>"

section \<open>Properties of the matcher and of \<open>replace\<close>\<close>

text \<open>A match consumes a prefix of the input: what is left is a suffix.\<close>

lemma rmatch_suffix_aux:
  "x \<in> set (rmatch re st) \<Longrightarrow> \<exists>m. fst (snd st) = m @ fst (snd x)"
proof (induction re st arbitrary: x rule: rmatch.induct)
  case (1 w p r g)
  then show ?case by (auto split: if_splits) (metis append_take_drop_id)
next
  case (5 a b s)
  from "5.prems" obtain y where
    a: "y \<in> set (rmatch a s)" and b: "x \<in> set (rmatch b y)"
    by auto
  from "5.IH"(1) [OF a] "5.IH"(2) [OF a b] show ?case by auto
next
  case (7 greedy a p r g)
  show ?case
  proof (cases "x = (p, r, g)")
    case True
    then show ?thesis by simp
  next
    case False
    with "7.prems" obtain y where
      a: "y \<in> set (rmatch a (p, r, g))" and l: "length (fst (snd y)) < length r"
      and b: "x \<in> set (rmatch (Star greedy a) y)"
      by (auto simp: rmatch.simps(7) [of greedy a p r g] Let_def split: if_splits)
    from "7.IH"(1) [OF a] "7.IH"(2) [of y x] a l b show ?thesis by auto
  qed
qed (auto split: list.splits if_splits option.splits)


text \<open>A match consumes at least as many characters of a kind as the bound says.\<close>

lemma rmatch_consumes:
  "x \<in> set (rmatch re st) \<Longrightarrow>
   \<exists>m. fst (snd st) = m @ fst (snd x) \<and> min_count P re \<le> length (filter P m)"
proof (induction re arbitrary: x st)
  case (Lit w)
  obtain p r g where st: "st = (p, r, g)" by (cases st)
  with Lit have "take (length w) r = w" and "fst (snd x) = drop (length w) r"
    by (auto split: if_splits)
  then have "r = w @ fst (snd x)" by (metis append_take_drop_id)
  with st show ?case by auto
next
  case (Sym cs)
  obtain p r g where st: "st = (p, r, g)" by (cases st)
  with Sym obtain c where "r = [c] @ fst (snd x)" and "list_ex (\<lambda>k. in_cls k c) cs"
    by (auto split: list.splits if_splits)
  with st show ?case by (intro exI [of _ "[c]"]) auto
next
  case (NSym cs)
  obtain p r g where st: "st = (p, r, g)" by (cases st)
  with NSym obtain c where "r = [c] @ fst (snd x)" and "\<not> list_ex (\<lambda>k. in_cls k c) cs"
    by (auto split: list.splits if_splits)
  with st show ?case by (intro exI [of _ "[c]"]) auto
next
  case (Seq a b)
  from Seq.prems obtain y where y: "y \<in> set (rmatch a st)" and x: "x \<in> set (rmatch b y)"
    by auto
  from Seq.IH(1) [OF y] obtain m1 where
    m1: "fst (snd st) = m1 @ fst (snd y)" "min_count P a \<le> length (filter P m1)" by blast
  from Seq.IH(2) [OF x] obtain m2 where
    m2: "fst (snd y) = m2 @ fst (snd x)" "min_count P b \<le> length (filter P m2)" by blast
  from m1 m2 show ?case by (intro exI [of _ "m1 @ m2"]) simp
next
  case (Alt a b)
  from Alt.prems have "x \<in> set (rmatch a st) \<or> x \<in> set (rmatch b st)" by simp
  then show ?case
  proof
    assume "x \<in> set (rmatch a st)"
    from Alt.IH(1) [OF this] show ?thesis by (auto intro: min.coboundedI1)
  next
    assume "x \<in> set (rmatch b st)"
    from Alt.IH(2) [OF this] show ?thesis by (auto intro: min.coboundedI2)
  qed
next
  case (Grp n a)
  obtain p r g where st: "st = (p, r, g)" by (cases st)
  with Grp.prems obtain y where "y \<in> set (rmatch a st)" and "fst (snd x) = fst (snd y)"
    by auto
  with Grp.IH [of y st] show ?case by simp
qed (use rmatch_suffix_aux in auto)

text \<open>A pattern that needs a character of a kind matches nowhere in a text without one.\<close>

lemma min_count_no_match:
  assumes "0 < min_count P re" and "\<forall>c\<in>set s. \<not> P c"
  shows "rmatch re (p, s, g) = []"
proof (rule ccontr)
  assume "rmatch re (p, s, g) \<noteq> []"
  then obtain x where "x \<in> set (rmatch re (p, s, g))"
    by (cases "rmatch re (p, s, g)") auto
  from rmatch_consumes [OF this, of P] obtain m where
    "s = m @ fst (snd x)" and "min_count P re \<le> length (filter P m)"
    by auto
  with assms show False by (auto simp: filter_empty_conv)
qed

lemma replace_from_no_match:
  "no_match_from re p s \<Longrightarrow> replace_from re f p s st = (s, st)"
proof (induction s arbitrary: p)
  case Nil
  then show ?case by (subst replace_from.simps) simp
next
  case (Cons c cs)
  then have "rmatch re (p, c # cs, []) = []" and "replace_from re f (Some c) cs st = (cs, st)"
    by simp_all
  then show ?case by (subst replace_from.simps) simp
qed

lemma min_count_no_match_from:
  "0 < min_count P re \<Longrightarrow> \<forall>c\<in>set s. \<not> P c \<Longrightarrow> no_match_from re p s"
  by (induction s arbitrary: p) (simp_all add: min_count_no_match)

text \<open>
  C8: the normalizer is total on strings. Called on a string, \<open>preprocessText\<close> returns
  a string and raises nothing: every statement hands a string to the next one, so the
  result is the one of the pipeline on strings. An undefined or empty argument gives the
  empty string. Each step of the pipeline that replaces a pattern returns the text (and
  the placeholder table) as it was when its pattern matches at no position.
\<close>

theorem preprocessText_total:
  "preprocessText_js (JString input) = Inr (JString (preprocessText input))
   \<and> preprocessText_js JUndefined = Inr (JString [])
   \<and> preprocessText_js (JString []) = Inr (JString [])
   \<and> (no_match re_spaced s \<longrightarrow> fix_spaced s = s)
   \<and> (no_match re_comma s \<longrightarrow> fix_comma s = s)
   \<and> (no_match re_eol s \<longrightarrow> normalize_eol s = s)
   \<and> (no_match re_math s \<longrightarrow> protect_math s tbl = (s, tbl))
   \<and> (no_match re_malformed s \<longrightarrow> protect_malformed s tbl = (s, tbl))
   \<and> (no_match re_command s \<longrightarrow> protect_commands s tbl = (s, tbl))
   \<and> (no_match re_quantum s \<longrightarrow> protect_quantum s tbl = (s, tbl))
   \<and> (no_match re_bold s \<longrightarrow> fix_bold s = s)
   \<and> (no_match re_join s \<longrightarrow> join_lines s = s)
   \<and> (no_match re_colon_math s \<longrightarrow> math_after_colon s = s)
   \<and> (no_match re_url s \<longrightarrow> fix_urls s = s)
   \<and> (no_match re_newlines s \<longrightarrow> limit_newlines s = s)
   \<and> (no_match re_merge s \<longrightarrow> merge_newlines s = s)
   \<and> (no_match re_heading s \<longrightarrow> format_headings s = s)
   \<and> (no_match re_list s \<longrightarrow> format_lists s = s)
   \<and> (no_match re_dividing1 s \<and> no_match re_dividing2 s \<longrightarrow> fix_dividing s = s)
   \<and> (no_match re_restore s \<longrightarrow> restore_latex tbl s = s)
   \<and> (no_match re_space_after s \<and> no_match re_space_before s \<longrightarrow> space_inline s = s)
   \<and> (no_match re_display s \<longrightarrow> isolate_display s = s)"
proof -
  have "preprocessText_js (JString input) = Inr (JString (preprocessText input))"
    by (simp add: preprocessText_js_def preprocessText_def truthy_def call_method_def
          call_method_cb_def and_then_def Let_def split: prod.splits)
  moreover have "preprocessText_js JUndefined = Inr (JString [])"
    "preprocessText_js (JString []) = Inr (JString [])"
    by (simp_all add: preprocessText_js_def truthy_def)
  moreover have "no_match re x \<Longrightarrow> replace re t x = x" for re t x
    by (simp add: replace_def replace_cb_def no_match_def replace_from_no_match)
  moreover have "no_match re x \<Longrightarrow> replace_cb re f x st = (x, st)"
    for re x st and f :: "string \<Rightarrow> captures \<Rightarrow> string list \<Rightarrow> string \<times> string list"
    by (simp add: replace_cb_def no_match_def replace_from_no_match)
  moreover have "no_match re_restore s \<Longrightarrow> restore_latex tbl s = s"
    by (simp add: restore_latex_def replace_cb_def no_match_def replace_from_no_match)
  ultimately show ?thesis
    by (simp add: fix_spaced_def fix_comma_def normalize_eol_def protect_math_def
          protect_malformed_def protect_commands_def protect_quantum_def fix_bold_def
          join_lines_def math_after_colon_def fix_urls_def limit_newlines_def merge_newlines_def
          format_headings_def format_lists_def fix_dividing_def space_inline_def
          isolate_display_def)
qed

theorem preprocessText_total_witness:
  "(no_match re_spaced ''ab'' \<and> no_match re_comma ''ab'' \<and> no_match re_eol ''ab'' \<and> no_match re_math ''ab'' \<and> no_match re_malformed ''ab'' \<and> no_match re_command ''ab'' \<and> no_match re_quantum ''ab'' \<and> no_match re_bold ''ab'' \<and> no_match re_join ''ab'' \<and> no_match re_colon_math ''ab'' \<and> no_match re_url ''ab'' \<and> no_match re_newlines ''ab'' \<and> no_match re_merge ''ab'' \<and> no_match re_heading ''ab'' \<and> no_match re_list ''ab'' \<and> no_match re_dividing1 ''ab'' \<and> no_match re_dividing2 ''ab'' \<and> no_match re_restore ''ab'' \<and> no_match re_space_after ''ab'' \<and> no_match re_space_before ''ab'' \<and> no_match re_display ''ab'')
   \<and> preprocessText_js (JString ''Hello\<newline>world\<newline>'') = Inr (JString ''Hello world'')
   \<and> preprocessText_js JUndefined = Inr (JString [])
   \<and> fix_spaced ''ab'' = ''ab''
   \<and> fix_comma ''ab'' = ''ab''
   \<and> normalize_eol ''ab'' = ''ab''
   \<and> protect_math ''ab'' [''$x$''] = (''ab'', [''$x$''])
   \<and> protect_malformed ''ab'' [''$x$''] = (''ab'', [''$x$''])
   \<and> protect_commands ''ab'' [''$x$''] = (''ab'', [''$x$''])
   \<and> protect_quantum ''ab'' [''$x$''] = (''ab'', [''$x$''])
   \<and> fix_bold ''ab'' = ''ab''
   \<and> join_lines ''ab'' = ''ab''
   \<and> math_after_colon ''ab'' = ''ab''
   \<and> fix_urls ''ab'' = ''ab''
   \<and> limit_newlines ''ab'' = ''ab''
   \<and> merge_newlines ''ab'' = ''ab''
   \<and> format_headings ''ab'' = ''ab''
   \<and> format_lists ''ab'' = ''ab''
   \<and> fix_dividing ''ab'' = ''ab''
   \<and> restore_latex [''$x$''] ''ab'' = ''ab''
   \<and> space_inline ''ab'' = ''ab''
   \<and> isolate_display ''ab'' = ''ab''"
proof -
  have h: "no_match re_spaced ''ab'' \<and> no_match re_comma ''ab'' \<and> no_match re_eol ''ab'' \<and> no_match re_math ''ab'' \<and> no_match re_malformed ''ab'' \<and> no_match re_command ''ab'' \<and> no_match re_quantum ''ab'' \<and> no_match re_bold ''ab'' \<and> no_match re_join ''ab'' \<and> no_match re_colon_math ''ab'' \<and> no_match re_url ''ab'' \<and> no_match re_newlines ''ab'' \<and> no_match re_merge ''ab'' \<and> no_match re_heading ''ab'' \<and> no_match re_list ''ab'' \<and> no_match re_dividing1 ''ab'' \<and> no_match re_dividing2 ''ab'' \<and> no_match re_restore ''ab'' \<and> no_match re_space_after ''ab'' \<and> no_match re_space_before ''ab'' \<and> no_match re_display ''ab''"
    by code_simp
  have n: "preprocessText ''Hello\<newline>world\<newline>'' = ''Hello world''" by code_simp
  note w = preprocessText_total [of "''Hello\<newline>world\<newline>''" "''ab''" "[''$x$'']"]
  from h w show ?thesis unfolding n by simp
qed

text \<open>A truthy value that is not a string makes the first method call raise.\<close>

lemma preprocessText_js_number: "preprocessText_js (JNumber 5) = Inl TypeError"
  by (simp add: preprocessText_js_def truthy_def call_method_def and_then_def)

section \<open>Properties of the normalizer\<close>

subsection \<open>Prose\<close>


lemma not_word_sep: "\<not> is_word (CHR '' '')" "\<not> is_word nl" "is_space (CHR '' '')" "is_space nl"
  by (simp_all add: is_word_def is_space_def)


























































text \<open>
  C4: on \<open>"W h e n x = 1 , then y = 2"\<close> the first two replacements give
  \<open>"Whe n x = 1 then y = 2"\<close>, not \<open>"When x = 1 then y = 2"\<close>: the first pattern merges
  three letters, and the fourth stays apart.
\<close>

theorem defragment_scenario:
  "fix_comma (fix_spaced ''W h e n x = 1 , then y = 2'') = ''Whe n x = 1 then y = 2''"
  by code_simp

subsection \<open>Restoring the placeholders\<close>

lemma digit_nth: "d < 10 \<Longrightarrow> is_digit (''0123456789'' ! d)"
  unfolding is_digit_def by (rule nth_mem) simp


lemma string_of_nat_digits: "string_of_nat n \<noteq> [] \<and> (\<forall>c\<in>set (string_of_nat n). is_digit c)"
proof (induction n rule: string_of_nat.induct)
  case (1 n)
  show ?case
  proof (cases "n < 10")
    case True
    then show ?thesis by (subst (1 2) string_of_nat.simps) (simp add: digit_nth)
  next
    case False
    with 1 show ?thesis by (subst (1 2) string_of_nat.simps) (simp add: digit_nth)
  qed
qed














text \<open>
  The first protection pass followed by restoration gives back a text without
  underscore: each token is replaced by the span it stands for.
\<close>

lemma math_consumes:
  assumes "(p', s', g') \<in> set (rmatch re_math (p, s, g))"
  shows "length s' < length s"
proof -
  have "min_count (\<lambda>c. True) re_math = 2"
    by (simp add: re_math_def re_math_body_def)
  with rmatch_consumes [OF assms, of "\<lambda>c. True"] show ?thesis by auto
qed






subsection \<open>The pass for malformed spans\<close>

text \<open>
  After the first protection pass at most one \<open>$\<close> is left in the text: where a
  \<open>$\<close> has another one behind it, the second alternative of the pattern matches, and
  a token has no \<open>$\<close>. The pattern for malformed spans needs two, so that pass never
  changes what the first pass returns.
\<close>

lemma lazy_star_reaches:
  "CHR ''$'' \<notin> set pre \<Longrightarrow>
   \<exists>p'. (p', CHR ''$'' # post, g) \<in>
     set (rmatch (Star False (NSym [Ch (CHR ''$'')])) (p, pre @ CHR ''$'' # post, g))"
proof (induction pre arbitrary: p)
  case Nil
  show ?case
    by (simp add: rmatch.simps(7) [of False _ p "CHR ''$'' # post" g])
next
  case (Cons c pre)
  then obtain p' where
    "(p', CHR ''$'' # post, g) \<in>
       set (rmatch (Star False (NSym [Ch (CHR ''$'')])) (Some c, pre @ CHR ''$'' # post, g))"
    by auto
  moreover from Cons.prems have "c \<noteq> CHR ''$''" by auto
  ultimately show ?case
    by (auto simp: rmatch.simps(7) [of False _ p "c # pre @ CHR ''$'' # post" g])
qed

lemma math_matches:
  assumes "CHR ''$'' \<in> set cs"
  shows "rmatch re_math (p, CHR ''$'' # cs, g) \<noteq> []"
proof -
  from assms obtain pre post where cs: "cs = pre @ CHR ''$'' # post" and "CHR ''$'' \<notin> set pre"
    by (auto dest: split_list_first)
  then obtain p' where
    "(p', CHR ''$'' # post, g) \<in>
       set (rmatch (Star False (NSym [Ch (CHR ''$'')])) (Some (CHR ''$''), pre @ CHR ''$'' # post, g))"
    using lazy_star_reaches by blast
  then have "rmatch (seqs [Lit ''$'', Star False (NSym [Ch (CHR ''$'')]), Lit ''$''])
               (p, CHR ''$'' # cs, g) \<noteq> []"
    unfolding cs by (auto simp: last_char_def intro!: bexI [of _ "(p', CHR ''$'' # post, g)"])
  then show ?thesis by (simp add: re_math_def re_math_body_def)
qed
lemma malformed_needs_two:
  assumes "rmatch re_malformed (p, s, g) \<noteq> []"
  shows "2 \<le> dollars s"
proof -
  from assms obtain x where x: "x \<in> set (rmatch re_malformed (p, s, g))"
    by (cases "rmatch re_malformed (p, s, g)") auto
  have "min_count (\<lambda>c. c = CHR ''$'') re_malformed = 2"
    by (simp add: re_malformed_def)
  with rmatch_consumes [OF x, of "\<lambda>c. c = CHR ''$''"] show ?thesis
    by (auto simp: dollars_def)
qed


lemma math_no_dollar:
  "CHR ''$'' \<notin> set s \<Longrightarrow> replace_from re_math f p s tbl = (s, tbl)"
proof (rule replace_from_no_match, rule min_count_no_match_from [of "\<lambda>c. c = CHR ''$''"])
  show "0 < min_count (\<lambda>c. c = CHR ''$'') re_math" by (simp add: re_math_def re_math_body_def)
qed auto

lemma dollars_simps:
  "dollars [] = 0" "dollars (a @ b) = dollars a + dollars b"
  "dollars (c # cs) = (if c = CHR ''$'' then Suc (dollars cs) else dollars cs)"
  by (simp_all add: dollars_def)

lemma dollars_none: "CHR ''$'' \<notin> set s \<Longrightarrow> dollars s = 0"
  by (auto simp: dollars_def filter_empty_conv)

lemma token_no_dollar: "dollars (token i) = 0"
proof -
  have "\<not> is_digit (CHR ''$'')" by (simp add: is_digit_def)
  then have "CHR ''$'' \<notin> set (string_of_nat i)"
    using string_of_nat_digits [of i] by blast
  then show ?thesis by (simp add: token_def dollars_simps dollars_none)
qed

lemma protect_math_dollars:
  "dollars (fst (replace_from re_math (\<lambda>m g. protect [] m) p s tbl)) \<le> 1"
proof (induction s arbitrary: p tbl rule: length_induct)
  case (1 s)
  let ?f = "\<lambda>m (g::captures). protect [] m"
  have IH: "dollars (fst (replace_from re_math ?f q t tb)) \<le> 1" if "length t < length s" for q t tb
    using 1 that by blast
  note step = replace_from.simps [of re_math ?f p s tbl]
  show ?case
  proof (cases "rmatch re_math (p, s, [])")
    case Nil
    note none = this
    show ?thesis
    proof (cases s)
      case Nil
      with none show ?thesis by (subst step) (simp add: dollars_simps)
    next
      case (Cons c cs)
      show ?thesis
      proof (cases "c = CHR ''$''")
        case True
        with none Cons have nd: "CHR ''$'' \<notin> set cs" using math_matches [of cs p "[]"] by auto
        then have "replace_from re_math ?f (Some c) cs tbl = (cs, tbl)" by (rule math_no_dollar)
        with none Cons True dollars_none [OF nd] show ?thesis
          by (subst step) (simp add: dollars_simps)
      next
        case False
        from Cons have "dollars (fst (replace_from re_math ?f (Some c) cs tbl)) \<le> 1"
          by (intro IH) simp
        with none Cons False show ?thesis
          by (subst step) (simp add: dollars_simps case_prod_beta)
      qed
    qed
  next
    case (Cons x xs)
    obtain p' s' g where x: "x = (p', s', g)" by (cases x)
    with Cons have l: "length s' < length s" using math_consumes [of p' s' g p s "[]"] by simp
    define m where "m = take (length s - length s') s"
    have r: "dollars (fst (replace_from re_math ?f p' s' (tbl @ [m]))) \<le> 1"
      by (rule IH [OF l])
    have f: "?f m g tbl = (token (length tbl), tbl @ [m])" by (simp add: protect_def)
    have "replace_from re_math ?f p s tbl =
            (token (length tbl) @ fst (replace_from re_math ?f p' s' (tbl @ [m])),
             snd (replace_from re_math ?f p' s' (tbl @ [m])))"
      unfolding step Cons x by (simp add: f [unfolded m_def] l m_def case_prod_beta)
    with r show ?thesis by (simp add: dollars_simps token_no_dollar)
  qed
qed

lemma malformed_no_match:
  "dollars s \<le> 1 \<Longrightarrow> no_match_from re_malformed p s"
proof (induction s arbitrary: p)
  case Nil
  then show ?case using malformed_needs_two [of p "[]" "[]"] by (auto simp: dollars_def)
next
  case (Cons c cs)
  then have "dollars cs \<le> 1" by (simp add: dollars_def split: if_splits)
  with Cons show ?case using malformed_needs_two [of p "c # cs" "[]"] by auto
qed

lemma protect_malformed_unreachable:
  "protect_malformed (fst (protect_math text [])) tbl = (fst (protect_math text []), tbl)"
  unfolding protect_malformed_def protect_math_def replace_cb_def
  by (rule replace_from_no_match, rule malformed_no_match, rule protect_math_dollars)

text \<open>
  C3: on \<open>"x = 5$$"\<close> the first protection pass takes the closing \<open>$$\<close> as an empty
  inline span, so the pass for malformed spans finds no \<open>$$\<close> and the text comes out
  as it went in, with the dangling \<open>$$\<close>.
\<close>

theorem malformed_math_unprotected:
  "protect_math ''x = 5$$'' [] = (''x = 5__LATEX_0__'', [''$$''])
   \<and> protect_malformed ''x = 5__LATEX_0__'' [''$$''] = (''x = 5__LATEX_0__'', [''$$''])
   \<and> preprocessText ''x = 5$$'' = ''x = 5$$''"
  by code_simp

section \<open>Properties of the streaming loop\<close>

text \<open>
  C5: the chunk \<open>"data: ab"\<close> yields no frame and stays in the buffer; the chunk
  \<open>"c\n\n"\<close> then gives the state that the single chunk \<open>"data: abc\n\n"\<close> gives: the
  one payload \<open>abc\<close> appended with a newline, shown through the normalizer, and an
  empty buffer.
\<close>

theorem frame_reassembly:
  "feed (start ms) ''data: ab'' = Inr ((start ms)\<lparr>buffer := ''data: ab''\<rparr>)
   \<and> feed ((start ms)\<lparr>buffer := ''data: ab''\<rparr>) ''c\<newline>\<newline>'' = feed (start ms) ''data: abc\<newline>\<newline>''
   \<and> feed (start ms) ''data: abc\<newline>\<newline>'' =
       (case show_content ''abc\<newline>'' ms of
          Inl e \<Rightarrow> Inl e
        | Inr ms' \<Rightarrow> Inr \<lparr>buffer = [], accumulatedContent = ''abc\<newline>'', messages = ms'\<rparr>)"
  by (simp add: feed_def start_def split_nlnl_def process_part_def trim_def is_space_def startsWith_def
       split: sum.splits)

text \<open>
  C6, as amended: a frame yields a payload if and only if its text, once trimmed, starts
  with \<open>data:\<close> and what follows the marker, trimmed, is not \<open>[DONE]\<close>; the payload
  is what follows the marker with all the white space around it removed. Every other
  frame leaves the state of the loop as it is, without an error.
\<close>

theorem frame_filter:
  assumes "messages st \<noteq> []"
  shows "\<exists>st'. process_part st part = Inr st' \<and>
           (if startsWith (trim part) ''data:'' \<and> trim (drop 5 (trim part)) \<noteq> ''[DONE]''
            then accumulatedContent st' = accumulatedContent st @ trim (drop 5 (trim part)) @ [nl]
            else st' = st)"
  using assms by (simp add: process_part_def show_content_def Let_def)

theorem frame_filter_witness:
  "messages (start [msg ''assistant'' []]) \<noteq> [] \<and>
   (\<exists>st'. process_part (start [msg ''assistant'' []]) ''data: Hello'' = Inr st' \<and>
           (if startsWith (trim ''data: Hello'') ''data:'' \<and> trim (drop 5 (trim ''data: Hello'')) \<noteq> ''[DONE]''
            then accumulatedContent st' = accumulatedContent (start [msg ''assistant'' []]) @ trim (drop 5 (trim ''data: Hello'')) @ [nl]
            else st' = start [msg ''assistant'' []]))"
proof -
  have h: "messages (start [msg ''assistant'' []]) \<noteq> []" by (simp add: start_def)
  from h frame_filter [OF h] show ?thesis by (intro conjI)
qed

text \<open>
  C6, as stated, fails: a frame with white space before the marker does not begin with
  the marker and yields a payload; all the white space after the marker is removed, not
  one separator; and a frame that begins with the marker yields nothing when its payload
  is the sentinel.
\<close>

theorem frame_filter_counterexample:
  "\<not> startsWith '' data: x'' ''data:''
   \<and> process_part (start [msg ''assistant'' []]) '' data: x'' =
       Inr \<lparr>buffer = [], accumulatedContent = ''x\<newline>'', messages = [msg ''assistant'' ''x'']\<rparr>
   \<and> process_part (start [msg ''assistant'' []]) ''data:  x'' =
       Inr \<lparr>buffer = [], accumulatedContent = ''x\<newline>'', messages = [msg ''assistant'' ''x'']\<rparr>
   \<and> startsWith ''data: [DONE]'' ''data:''
   \<and> process_part (start [msg ''assistant'' []]) ''data: [DONE]'' = Inr (start [msg ''assistant'' []])"
  by code_simp

lemma process_parts_append:
  "process_parts st (xs @ ys) =
     (case process_parts st xs of Inl e \<Rightarrow> Inl e | Inr st' \<Rightarrow> process_parts st' ys)"
  by (induction xs arbitrary: st) (simp_all split: sum.splits)

text \<open>
  C7: a frame whose payload is \<open>[DONE]\<close> leaves the state as it is, so the payload is
  neither appended to the accumulated content nor given to the normalizer; the loop over
  the frames gives what it gives without that frame.
\<close>

theorem done_dropped:
  assumes "startsWith (trim part) ''data:''" and "trim (drop 5 (trim part)) = ''[DONE]''"
  shows "process_part st part = Inr st
         \<and> process_parts st (xs @ part # ys) = process_parts st (xs @ ys)"
proof -
  from assms have "process_part st' part = Inr st'" for st'
    by (simp add: process_part_def)
  then show ?thesis by (simp add: process_parts_append split: sum.splits)
qed

theorem done_dropped_witness:
  "startsWith (trim ''data: [DONE]'') ''data:'' \<and> trim (drop 5 (trim ''data: [DONE]'')) = ''[DONE]''
   \<and> process_part (start [msg ''assistant'' []]) ''data: [DONE]'' = Inr (start [msg ''assistant'' []])
   \<and> process_parts (start [msg ''assistant'' []]) ([''data: a''] @ ''data: [DONE]'' # [''data: b''])
       = process_parts (start [msg ''assistant'' []]) ([''data: a''] @ [''data: b''])"
proof -
  have h1: "startsWith (trim ''data: [DONE]'') ''data:''" by code_simp
  have h2: "trim (drop 5 (trim ''data: [DONE]'')) = ''[DONE]''" by code_simp
  note w = done_dropped [OF h1 h2, of "start [msg ''assistant'' []]" "[''data: a'']" "[''data: b'']"]
  from h1 h2 w show ?thesis by blast
qed

lemma process_part_step:
  assumes "messages st \<noteq> []"
  shows "\<exists>st'. process_part st part = Inr st' \<and> messages st' \<noteq> []
           \<and> role (last (messages st')) = role (last (messages st))
           \<and> accumulatedContent st' = accumulatedContent st @ concat (map (\<lambda>d. d @ [nl]) (payloads [part]))
           \<and> (payloads [part] = [] \<longrightarrow> st' = st)
           \<and> (payloads [part] \<noteq> [] \<and> role (last (messages st)) = ''assistant'' \<longrightarrow>
                content (last (messages st')) = preprocessText (accumulatedContent st'))"
  using assms by (simp add: process_part_def show_content_def Let_def payloads_def)

lemma payloads_Cons: "payloads (part # parts) = payloads [part] @ payloads parts"
  by (simp add: payloads_def)

text \<open>
  C10: over a list of frames the loop appends to the accumulated content each payload
  followed by one newline, where the payload of a frame is its trimmed text without the
  first five characters, trimmed again; after a payload the content of the last message,
  when it is the assistant's, is the normalizer's result on the whole accumulated content.
\<close>

theorem accumulated_payloads:
  assumes "messages st \<noteq> []"
  shows "\<exists>st'. process_parts st parts = Inr st' \<and>
           accumulatedContent st' =
             accumulatedContent st @ concat (map (\<lambda>d. d @ [nl]) (payloads parts)) \<and>
           (payloads parts \<noteq> [] \<and> role (last (messages st)) = ''assistant'' \<longrightarrow>
              content (last (messages st')) = preprocessText (accumulatedContent st'))"
proof -
  have "\<exists>st'. process_parts st parts = Inr st' \<and> messages st' \<noteq> [] \<and>
           role (last (messages st')) = role (last (messages st)) \<and>
           accumulatedContent st' =
             accumulatedContent st @ concat (map (\<lambda>d. d @ [nl]) (payloads parts)) \<and>
           (payloads parts = [] \<longrightarrow> st' = st) \<and>
           (payloads parts \<noteq> [] \<and> role (last (messages st)) = ''assistant'' \<longrightarrow>
              content (last (messages st')) = preprocessText (accumulatedContent st'))"
    using assms
  proof (induction parts arbitrary: st)
    case Nil
    then show ?case by (simp add: payloads_def)
  next
    case (Cons part parts)
    from process_part_step [OF Cons.prems, of part] obtain st1 where
      s1: "process_part st part = Inr st1" "messages st1 \<noteq> []"
        "role (last (messages st1)) = role (last (messages st))"
        "accumulatedContent st1 = accumulatedContent st @ concat (map (\<lambda>d. d @ [nl]) (payloads [part]))"
        "payloads [part] = [] \<longrightarrow> st1 = st"
        "payloads [part] \<noteq> [] \<and> role (last (messages st)) = ''assistant'' \<longrightarrow>
                content (last (messages st1)) = preprocessText (accumulatedContent st1)"
      by blast
    from Cons.IH [OF s1(2)] obtain st2 where
      s2: "process_parts st1 parts = Inr st2" "messages st2 \<noteq> []"
        "role (last (messages st2)) = role (last (messages st1))"
        "accumulatedContent st2 = accumulatedContent st1 @ concat (map (\<lambda>d. d @ [nl]) (payloads parts))"
        "payloads parts = [] \<longrightarrow> st2 = st1"
        "payloads parts \<noteq> [] \<and> role (last (messages st1)) = ''assistant'' \<longrightarrow>
                content (last (messages st2)) = preprocessText (accumulatedContent st2)"
      by blast
    have "process_parts st (part # parts) = Inr st2" using s1(1) s2(1) by simp
    moreover have "accumulatedContent st2 =
        accumulatedContent st @ concat (map (\<lambda>d. d @ [nl]) (payloads (part # parts)))"
      using s1(4) s2(4) by (simp add: payloads_Cons [of part parts])
    moreover have "payloads (part # parts) = [] \<longrightarrow> st2 = st"
      using s1(5) s2(5) by (simp add: payloads_Cons [of part parts])
    moreover have "payloads (part # parts) \<noteq> [] \<and> role (last (messages st)) = ''assistant'' \<longrightarrow>
              content (last (messages st2)) = preprocessText (accumulatedContent st2)"
      using s1(3,6) s2(5,6) by (cases "payloads parts = []") (auto simp: payloads_Cons [of part parts])
    ultimately show ?case using s2(2,3) s1(3) by simp
  qed
  then show ?thesis by blast
qed

theorem accumulated_payloads_witness:
  "messages (start [msg ''assistant'' []]) \<noteq> [] \<and>
   (\<exists>st'. process_parts (start [msg ''assistant'' []])
            [''data: Hello'', ''data:  world'', ''data: [DONE]'', ''event: ping''] = Inr st' \<and>
          accumulatedContent st' = ''Hello\<newline>world\<newline>'' \<and>
          content (last (messages st')) = ''Hello world'')"
proof -
  let ?st = "start [msg ''assistant'' []]"
  let ?parts = "[''data: Hello'', ''data:  world'', ''data: [DONE]'', ''event: ping'']"
  have h: "messages ?st \<noteq> []" by (simp add: start_def)
  have p: "payloads ?parts = [''Hello'', ''world'']" by code_simp
  have n: "preprocessText ''Hello\<newline>world\<newline>'' = ''Hello world''" by code_simp
  have r: "role (last (messages ?st)) = ''assistant''" by (simp add: start_def msg_def)
  have a: "accumulatedContent ?st = []" by (simp add: start_def)
  from accumulated_payloads [OF h, of ?parts] obtain st' where
    "process_parts ?st ?parts = Inr st'"
    "accumulatedContent st' = accumulatedContent ?st @ concat (map (\<lambda>d. d @ [nl]) (payloads ?parts))"
    "payloads ?parts \<noteq> [] \<and> role (last (messages ?st)) = ''assistant'' \<longrightarrow>
       content (last (messages st')) = preprocessText (accumulatedContent st')"
    by blast
  with h p n r a show ?thesis by simp
qed

section \<open>Properties of \<open>handleCancel\<close>\<close>

text \<open>
  C9: on a conversation whose last message is the assistant's, \<open>handleCancel\<close> removes
  that message when its content trims to the empty string, and otherwise appends
  \<open>"\n\n[Generation cancelled]"\<close> to its content; the messages before it stay as they
  are.
\<close>

theorem handleCancel_last_assistant:
  assumes "ms \<noteq> []" and "role (last ms) = ''assistant''"
  shows "handleCancel ms =
           (if trim (content (last ms)) = [] then butlast ms
            else butlast ms @
                   [(last ms)\<lparr>content := content (last ms) @ ''\<newline>\<newline>[Generation cancelled]''\<rparr>])"
  using assms by (simp add: handleCancel_def)

theorem handleCancel_last_assistant_witness:
  "handleCancel [msg ''user'' ''Hi'', msg ''assistant'' ''Working on it''] =
     [msg ''user'' ''Hi'', msg ''assistant'' ''Working on it\<newline>\<newline>[Generation cancelled]'']
   \<and> handleCancel [msg ''user'' ''Hi'', msg ''assistant'' []] = [msg ''user'' ''Hi'']"
  using handleCancel_last_assistant [of "[msg ''user'' ''Hi'', msg ''assistant'' ''Working on it'']"]
    handleCancel_last_assistant [of "[msg ''user'' ''Hi'', msg ''assistant'' []]"]
  by (simp add: msg_def trim_def is_space_def)

end
